theory Spec2Isabelle
  imports Complex_Main
begin

section \<open>Values and errors\<close>

text \<open>
  The script \<^verbatim>\<open>transformer-mnist.py\<close> computes its metrics on Python numbers and
  tensor scalars. The embedding uses exact rationals for them: the properties below are
  about which sums, counts and quotients the loops form, not about rounding. Every place
  where Python raises is a value of \<open>error\<close>.
\<close>

datatype error =
    ZeroDivisionError
  | UndefinedAverage
  | IndexError
  | RuntimeError
  | ValueError
  | TypeError
  | FileNotFoundError
  | LoadError

section \<open>Metrics aggregator\<close>

text \<open>
  Modelled from the spec: the class \<^verbatim>\<open>AverageMeter\<close> is imported from the module
  \<^verbatim>\<open>ui\<close>, which is not among the sources. The spec describes it as a (sum, count) pair;
  \<^verbatim>\<open>update(value, n=1)\<close> folds an observation weighted by \<open>n\<close> into the running sum
  and count; \<^verbatim>\<open>average\<close> is sum/count and is undefined before the first update. The
  undefined read is \<open>None\<close>.
\<close>

record AverageMeter =
  meter_sum :: rat
  meter_count :: nat

definition fresh_meter :: AverageMeter where
  "fresh_meter = \<lparr>meter_sum = 0, meter_count = 0\<rparr>"

definition update :: "AverageMeter \<Rightarrow> rat \<Rightarrow> nat \<Rightarrow> AverageMeter" where
  "update m v n =
     m\<lparr>meter_sum := meter_sum m + v * of_nat n, meter_count := meter_count m + n\<rparr>"

definition avg :: "AverageMeter \<Rightarrow> rat option" where
  "avg m = (if meter_count m = 0 then None
            else Some (meter_sum m / of_nat (meter_count m)))"

text \<open>A sequence of \<^verbatim>\<open>update(v, n)\<close> calls, applied in order.\<close>

fun updates :: "AverageMeter \<Rightarrow> (rat \<times> nat) list \<Rightarrow> AverageMeter" where
  "updates m [] = m"
| "updates m ((v, n) # calls) = updates (update m v n) calls"

text \<open>The weighted mean of the claim, written from its words: numerator and denominator.\<close>

definition weighted_sum :: "(rat \<times> nat) list \<Rightarrow> rat" where
  "weighted_sum calls = sum_list (map (\<lambda>(v, n). v * of_nat n) calls)"

definition total_weight :: "(rat \<times> nat) list \<Rightarrow> nat" where
  "total_weight calls = sum_list (map snd calls)"

lemma updates_sum:
  "meter_sum (updates m calls) = meter_sum m + weighted_sum calls"
  by (induction m calls rule: updates.induct)
     (simp_all add: update_def weighted_sum_def)

lemma updates_count:
  "meter_count (updates m calls) = meter_count m + total_weight calls"
  by (induction m calls rule: updates.induct)
     (simp_all add: update_def total_weight_def)

text \<open>
  Claim C1. On a fresh aggregator the average is undefined; after any sequence of
  \<^verbatim>\<open>update(v_i, n_i)\<close> calls it is the weighted mean \<open>\<Sum> v_i n_i / \<Sum> n_i\<close>, which is
  defined exactly when the total weight is not zero (so after one or more updates of
  positive weight).
\<close>

theorem average_is_weighted_mean:
  "avg fresh_meter = None \<and>
   avg (updates fresh_meter calls) =
     (if total_weight calls = 0 then None
      else Some (weighted_sum calls / of_nat (total_weight calls)))"
  by (simp add: avg_def updates_sum updates_count fresh_meter_def)

theorem average_is_weighted_mean_witness:
  "avg (updates fresh_meter [(3, 2), (5, 6)]) = Some (9 / 2)"
  using average_is_weighted_mean [of "[(3, 2), (5, 6)]"]
  by (simp add: total_weight_def weighted_sum_def)


section \<open>The classifier and its collaborators\<close>

text \<open>
  A batch is the list of its samples, each an input with its label. The network, the loss
  and the optimizer belong to the framework, so they are parameters of the loops:
  \<open>forward training p x\<close> is the score vector the model with parameters \<open>p\<close> gives the
  sample \<open>x\<close> (\<^verbatim>\<open>model(inputs)\<close>, row by row) in training or evaluation mode,
  \<open>cross_entropy\<close> is \<^verbatim>\<open>nn.CrossEntropyLoss()\<close>, \<open>optimizer_step\<close> is the effect of
  \<^verbatim>\<open>zero_grad\<close>, \<^verbatim>\<open>backward\<close> and \<^verbatim>\<open>optimizer.step\<close> on the parameters (the type
  \<open>'p\<close> holds whatever these mutate), and \<open>learning_rate\<close> is
  \<^verbatim>\<open>optimizer.param_groups[0]['lr']\<close>. A model instance is its parameters and the
  \<^verbatim>\<open>training\<close> flag that \<^verbatim>\<open>model.train()\<close> and \<^verbatim>\<open>model.eval()\<close> set.
\<close>

type_synonym 'x batch = "('x \<times> nat) list"

record ('p, 'x) net =
  forward :: "bool \<Rightarrow> 'p \<Rightarrow> 'x \<Rightarrow> rat list"
  cross_entropy :: "rat list list \<Rightarrow> nat list \<Rightarrow> rat"
  optimizer_step :: "'p \<Rightarrow> 'x batch \<Rightarrow> 'p"
  learning_rate :: rat

record 'p model =
  params :: 'p
  training :: bool

text \<open>A small network for the concrete runs below: six classes, samples \<open>0\<close>, \<open>1\<close>, \<open>2\<close>,
  parameters that count the optimizer steps taken.\<close>

definition example_net :: "(nat, nat) net" where
  "example_net =
     \<lparr>forward = (\<lambda>tr p x.
        if x = 0 then [1, 0, 0, 0, 0, 0]
        else if p \<le> 1 then [0, 1, 0, 0, 0, 0]
        else if x = 1 then [1, 0, 0, 0, 0, 0]
        else [0, 1, 1, 1, 1, 1]),
      cross_entropy = (\<lambda>outputs labels. 0),
      optimizer_step = (\<lambda>p data. Suc p),
      learning_rate = 1 / 1000\<rparr>"

section \<open>Top-k accuracy\<close>

text \<open>
  Modelled from the spec: the function \<^verbatim>\<open>accuracy\<close> is imported from the module \<^verbatim>\<open>ui\<close>,
  which is not among the sources. The spec defines top-k accuracy as the fraction of samples
  whose true label is among the \<open>k\<close> highest-scored classes, and reports it in percent
  (\<^verbatim>\<open>100*matches/2\<close> for a batch of two). A label counts as among the \<open>k\<close> highest when
  fewer than \<open>k\<close> classes score strictly higher. The fraction of an empty batch divides by
  zero. \<open>accuracy outputs labels topk\<close> returns one percentage for each \<open>k\<close> of \<open>topk\<close>.
\<close>

definition in_topk :: "nat \<Rightarrow> rat list \<Rightarrow> nat \<Rightarrow> bool" where
  "in_topk k scores label \<longleftrightarrow>
     label < length scores \<and> length (filter (\<lambda>s. scores ! label < s) scores) < k"

definition hits :: "nat \<Rightarrow> rat list list \<Rightarrow> nat list \<Rightarrow> nat" where
  "hits k outputs labels =
     length (filter (\<lambda>(scores, label). in_topk k scores label) (zip outputs labels))"

definition accuracy :: "rat list list \<Rightarrow> nat list \<Rightarrow> nat list \<Rightarrow> error + rat list" where
  "accuracy outputs labels topk =
     (if length labels = 0 then Inl ZeroDivisionError
      else Inr (map (\<lambda>k. 100 * of_nat (hits k outputs labels) / of_nat (length labels)) topk))"

section \<open>Evaluation loop\<close>

text \<open>
  \<^verbatim>\<open>test(args, model, device, test_loader)\<close>. The state of the loop is the two aggregators
  and the lines handed to \<^verbatim>\<open>progress_bar\<close>: the batch index, \<^verbatim>\<open>len(test_loader)\<close> and
  the two running averages, which the loop reads after every update. \<open>test\<close> returns the
  pair \<^verbatim>\<open>(top1.avg, top5.avg)\<close>, the model (now in evaluation mode) and the lines shown.
\<close>

type_synonym test_line = "nat \<times> nat \<times> rat \<times> rat"

definition test_batch ::
  "('x \<Rightarrow> rat list) \<Rightarrow> nat \<Rightarrow> AverageMeter \<times> AverageMeter \<times> test_line list \<Rightarrow> nat \<Rightarrow>
     'x batch \<Rightarrow> error + (AverageMeter \<times> AverageMeter \<times> test_line list)" where
  "test_batch f len st i data =
     (case st of (top1, top5, shown) \<Rightarrow>
      let inputs = map fst data; labels = map snd data;
          outputs = map f inputs
      in case accuracy outputs labels [1, 5] of
           Inl e \<Rightarrow> Inl e
         | Inr [acc1, acc5] \<Rightarrow>
             let top1' = update top1 acc1 (length inputs);
                 top5' = update top5 acc5 (length inputs)
             in (case (avg top1', avg top5') of
                   (Some a1, Some a5) \<Rightarrow> Inr (top1', top5', shown @ [(i, len, a1, a5)])
                 | _ \<Rightarrow> Inl UndefinedAverage)
         | Inr _ \<Rightarrow> Inl ValueError)"

fun test_loop ::
  "('x \<Rightarrow> rat list) \<Rightarrow> nat \<Rightarrow> AverageMeter \<times> AverageMeter \<times> test_line list \<Rightarrow> nat \<Rightarrow>
     'x batch list \<Rightarrow> error + (AverageMeter \<times> AverageMeter \<times> test_line list)" where
  "test_loop f len st i [] = Inr st"
| "test_loop f len st i (data # rest) =
     (case test_batch f len st i data of
        Inl e \<Rightarrow> Inl e
      | Inr st' \<Rightarrow> test_loop f len st' (Suc i) rest)"

definition test ::
  "('p, 'x) net \<Rightarrow> 'p model \<Rightarrow> 'x batch list \<Rightarrow>
     error + ((rat \<times> rat) \<times> 'p model \<times> test_line list)" where
  "test nt m test_loader =
     (let m' = m\<lparr>training := False\<rparr> in
      case test_loop (forward nt False (params m')) (length test_loader)
             (fresh_meter, fresh_meter, []) 0 test_loader of
        Inl e \<Rightarrow> Inl e
      | Inr (top1, top5, shown) \<Rightarrow>
          (case (avg top1, avg top5) of
             (Some a1, Some a5) \<Rightarrow> Inr ((a1, a5), m', shown)
           | _ \<Rightarrow> Inl UndefinedAverage))"

text \<open>The per-sample accuracy over a whole set of samples, written from the claim's words:
  the percentage of the samples whose label is among the \<open>k\<close> highest scores.\<close>

definition sample_hits :: "nat \<Rightarrow> ('x \<Rightarrow> rat list) \<Rightarrow> 'x batch \<Rightarrow> nat" where
  "sample_hits k f samples = length (filter (\<lambda>(x, label). in_topk k (f x) label) samples)"

definition per_sample_accuracy :: "nat \<Rightarrow> ('x \<Rightarrow> rat list) \<Rightarrow> 'x batch \<Rightarrow> rat" where
  "per_sample_accuracy k f samples =
     100 * of_nat (sample_hits k f samples) / of_nat (length samples)"

lemma hits_batch:
  "hits k (map (f \<circ> fst) data) (map snd data) = sample_hits k f data"
  unfolding hits_def sample_hits_def
  by (induction data) auto

lemma sample_hits_append:
  "sample_hits k f (xs @ ys) = sample_hits k f xs + sample_hits k f ys"
  by (simp add: sample_hits_def)

lemma test_batch_nonempty:
  assumes "data \<noteq> []"
  shows "\<exists>top1' top5' shown'.
           test_batch f len (top1, top5, shown) i data = Inr (top1', top5', shown') \<and>
           meter_sum top1' = meter_sum top1 + 100 * of_nat (sample_hits 1 f data) \<and>
           meter_sum top5' = meter_sum top5 + 100 * of_nat (sample_hits 5 f data) \<and>
           meter_count top1' = meter_count top1 + length data \<and>
           meter_count top5' = meter_count top5 + length data"
  using assms
  by (simp add: test_batch_def accuracy_def hits_batch update_def avg_def Let_def)

lemma test_loop_meters:
  assumes "\<forall>data \<in> set loader. data \<noteq> []"
  shows "\<exists>top1' top5' shown'.
           test_loop f len (top1, top5, shown) i loader = Inr (top1', top5', shown') \<and>
           meter_sum top1' = meter_sum top1 + 100 * of_nat (sample_hits 1 f (concat loader)) \<and>
           meter_sum top5' = meter_sum top5 + 100 * of_nat (sample_hits 5 f (concat loader)) \<and>
           meter_count top1' = meter_count top1 + length (concat loader) \<and>
           meter_count top5' = meter_count top5 + length (concat loader)"
  using assms
proof (induction loader arbitrary: top1 top5 shown i)
  case Nil
  then show ?case by (simp add: sample_hits_def)
next
  case (Cons data rest)
  from Cons.prems have ne: "data \<noteq> []" and rest: "\<forall>d \<in> set rest. d \<noteq> []" by simp_all
  from test_batch_nonempty [OF ne, of f len top1 top5 shown i]
  obtain a b c where
    step: "test_batch f len (top1, top5, shown) i data = Inr (a, b, c)" and
    s1: "meter_sum a = meter_sum top1 + 100 * of_nat (sample_hits 1 f data)" and
    s5: "meter_sum b = meter_sum top5 + 100 * of_nat (sample_hits 5 f data)" and
    c1: "meter_count a = meter_count top1 + length data" and
    c5: "meter_count b = meter_count top5 + length data"
    by blast
  from Cons.IH [OF rest, of a b c "Suc i"]
  obtain a' b' c' where
    loop: "test_loop f len (a, b, c) (Suc i) rest = Inr (a', b', c')" and
    s1': "meter_sum a' = meter_sum a + 100 * of_nat (sample_hits 1 f (concat rest))" and
    s5': "meter_sum b' = meter_sum b + 100 * of_nat (sample_hits 5 f (concat rest))" and
    c1': "meter_count a' = meter_count a + length (concat rest)" and
    c5': "meter_count b' = meter_count b + length (concat rest)"
    by blast
  show ?case
    using step loop s1 s5 c1 c5 s1' s5' c1' c5'
    by (simp add: sample_hits_append)
qed

text \<open>
  Claim C8. Each batch's top-1 and top-5 accuracy is folded into the aggregators with the
  batch's own number of samples as weight, so for any loader of non-empty batches, of
  whatever sizes (a smaller last batch included), \<open>test\<close> returns the per-sample top-1 and
  top-5 accuracy over all samples of the evaluation set.
\<close>

theorem test_is_per_sample_accuracy:
  assumes "test_loader \<noteq> []" and "\<forall>data \<in> set test_loader. data \<noteq> []"
  shows "\<exists>m' shown.
           test nt m test_loader =
             Inr ((per_sample_accuracy 1 (forward nt False (params m)) (concat test_loader),
                   per_sample_accuracy 5 (forward nt False (params m)) (concat test_loader)),
                  m', shown)"
proof -
  let ?f = "forward nt False (params m)"
  from test_loop_meters [OF assms(2), of ?f "length test_loader" fresh_meter fresh_meter "[]" 0]
  obtain a b c where
    loop: "test_loop ?f (length test_loader) (fresh_meter, fresh_meter, []) 0 test_loader
             = Inr (a, b, c)" and
    s1: "meter_sum a = 100 * of_nat (sample_hits 1 ?f (concat test_loader))" and
    s5: "meter_sum b = 100 * of_nat (sample_hits 5 ?f (concat test_loader))" and
    c1: "meter_count a = length (concat test_loader)" and
    c5: "meter_count b = length (concat test_loader)"
    by (auto simp: fresh_meter_def)
  from assms have "concat test_loader \<noteq> []"
    by (cases test_loader) auto
  then have pos: "length (concat test_loader) \<noteq> 0" by simp
  show ?thesis
    using loop s1 s5 c1 c5 pos
    by (simp add: test_def avg_def per_sample_accuracy_def)
qed

theorem test_is_per_sample_accuracy_witness:
  "\<exists>m' shown.
     test example_net \<lparr>params = 0, training = True\<rparr> [[(0, 0), (1, 0)], [(2, 0)]] =
       Inr ((100 / 3, 100), m', shown)"
  using test_is_per_sample_accuracy
    [of "[[(0, 0), (1, 0)], [(2, 0)]]" example_net "\<lparr>params = 0, training = True\<rparr>"]
  by (simp add: per_sample_accuracy_def sample_hits_def in_topk_def example_net_def)

text \<open>
  \<^verbatim>\<open>model.eval()\<close> comes first in \<^verbatim>\<open>test\<close>, so of the model it is given only the
  parameters reach the result.
\<close>

lemma test_same_parameters:
  assumes "params m1 = params m2"
  shows "test nt m1 test_loader = test nt m2 test_loader"
proof -
  from assms have "m1\<lparr>training := False\<rparr> = m2\<lparr>training := False\<rparr>"
    by (cases m1, cases m2) simp
  then show ?thesis
    by (simp add: test_def Let_def)
qed

section \<open>Training loop\<close>

text \<open>
  \<^verbatim>\<open>outputs.max(1)\<close> gives, for every row of scores, the index of its largest entry
  (the first one where several are largest); a row with no entry has no maximum and the
  call raises.
\<close>

fun argmax_from :: "rat \<Rightarrow> nat \<Rightarrow> nat \<Rightarrow> rat list \<Rightarrow> nat" where
  "argmax_from best pos i [] = pos"
| "argmax_from best pos i (s # scores) =
     (if best < s then argmax_from s i (Suc i) scores
      else argmax_from best pos (Suc i) scores)"

fun argmax :: "rat list \<Rightarrow> error + nat" where
  "argmax [] = Inl RuntimeError"
| "argmax (s # scores) = Inr (argmax_from s 0 1 scores)"

fun max_dim1 :: "rat list list \<Rightarrow> error + nat list" where
  "max_dim1 [] = Inr []"
| "max_dim1 (row # rows) =
     (case argmax row of
        Inl e \<Rightarrow> Inl e
      | Inr c \<Rightarrow> (case max_dim1 rows of Inl e \<Rightarrow> Inl e | Inr cs \<Rightarrow> Inr (c # cs)))"

text \<open>
  \<^verbatim>\<open>train(args, model, device, train_loader, test_loader, optimizer, epoch)\<close>. A line of
  the progress bar carries the batch index, \<^verbatim>\<open>len(train_loader)\<close>, the epoch, the running
  loss \<^verbatim>\<open>losses.avg\<close>, the running accuracy \<^verbatim>\<open>acc\<close> and the learning rate. The state
  of the loop is the parameters, the counters \<^verbatim>\<open>correct\<close> and \<^verbatim>\<open>total\<close>, the loss
  aggregator and the lines shown so far. \<^verbatim>\<open>acc = correct * 100. / total\<close> raises when
  \<^verbatim>\<open>total\<close> is zero.
\<close>

record train_line =
  line_index :: nat
  line_total :: nat
  line_epoch :: int
  line_loss :: rat
  line_acc :: rat
  line_lr :: rat

record 'p train_state =
  cur_params :: 'p
  correct :: nat
  total :: nat
  losses :: AverageMeter
  progress :: "train_line list"

definition train_batch ::
  "('p, 'x) net \<Rightarrow> int \<Rightarrow> nat \<Rightarrow> 'p train_state \<Rightarrow> nat \<Rightarrow> 'x batch \<Rightarrow> error + 'p train_state" where
  "train_batch nt epoch len st i data =
     (let inputs = map fst data; labels = map snd data;
          outputs = map (forward nt True (cur_params st)) inputs;
          loss = cross_entropy nt outputs labels;
          p' = optimizer_step nt (cur_params st) data;
          losses' = update (losses st) loss 1
      in case max_dim1 outputs of
           Inl e \<Rightarrow> Inl e
         | Inr predicted \<Rightarrow>
             let total' = total st + length labels;
                 correct' = correct st +
                   length (filter (\<lambda>(c, label). c = label) (zip predicted labels))
             in if total' = 0 then Inl ZeroDivisionError
                else
                  let acc = of_nat correct' * 100 / of_nat total' in
                  (case avg losses' of
                     None \<Rightarrow> Inl UndefinedAverage
                   | Some loss_avg \<Rightarrow>
                       Inr \<lparr>cur_params = p', correct = correct', total = total',
                            losses = losses',
                            progress = progress st @
                              [\<lparr>line_index = i, line_total = len, line_epoch = epoch,
                                line_loss = loss_avg, line_acc = acc,
                                line_lr = learning_rate nt\<rparr>]\<rparr>))"

fun train_loop ::
  "('p, 'x) net \<Rightarrow> int \<Rightarrow> nat \<Rightarrow> 'p train_state \<Rightarrow> nat \<Rightarrow> 'x batch list \<Rightarrow>
     error + 'p train_state" where
  "train_loop nt epoch len st i [] = Inr st"
| "train_loop nt epoch len st i (data # rest) =
     (case train_batch nt epoch len st i data of
        Inl e \<Rightarrow> Inl e
      | Inr st' \<Rightarrow> train_loop nt epoch len st' (Suc i) rest)"

definition train_start :: "'p \<Rightarrow> 'p train_state" where
  "train_start p =
     \<lparr>cur_params = p, correct = 0, total = 0, losses = fresh_meter, progress = []\<rparr>"

definition train ::
  "('p, 'x) net \<Rightarrow> 'p model \<Rightarrow> 'x batch list \<Rightarrow> 'x batch list \<Rightarrow> int \<Rightarrow>
     error + ((rat \<times> rat) \<times> 'p model \<times> train_line list \<times> test_line list)" where
  "train nt m train_loader test_loader epoch =
     (let m1 = m\<lparr>training := True\<rparr> in
      case train_loop nt epoch (length train_loader) (train_start (params m1)) 0 train_loader of
        Inl e \<Rightarrow> Inl e
      | Inr st \<Rightarrow>
          (case test nt (m1\<lparr>params := cur_params st\<rparr>) test_loader of
             Inl e \<Rightarrow> Inl e
           | Inr (tops, m2, lines) \<Rightarrow> Inr (tops, m2, progress st, lines)))"


text \<open>
  The number of correctly predicted samples, written from the claim's words: every sample
  of every batch, in the order processed and under the parameters its batch was run with,
  paired with its label; the count of those whose predicted class is the label.
\<close>

fun predictions :: "('p, 'x) net \<Rightarrow> 'p \<Rightarrow> 'x batch list \<Rightarrow> ((error + nat) \<times> nat) list" where
  "predictions nt p [] = []"
| "predictions nt p (data # rest) =
     map (\<lambda>(x, label). (argmax (forward nt True p x), label)) data @
     predictions nt (optimizer_step nt p data) rest"

definition correct_count :: "('p, 'x) net \<Rightarrow> 'p \<Rightarrow> 'x batch list \<Rightarrow> nat" where
  "correct_count nt p batches =
     length (filter (\<lambda>(c, label). c = Inr label) (predictions nt p batches))"

lemma correct_count_Nil: "correct_count nt p [] = 0"
  by (simp add: correct_count_def)

lemma correct_count_Cons:
  "correct_count nt p (data # rest) =
     length (filter (\<lambda>(c, label). c = Inr label)
       (map (\<lambda>(x, label). (argmax (forward nt True p x), label)) data)) +
     correct_count nt (optimizer_step nt p data) rest"
  by (simp add: correct_count_def)

lemma argmax_nonempty: "row \<noteq> [] \<Longrightarrow> \<exists>c. argmax row = Inr c"
  by (cases row) simp_all

lemma max_dim1_rows:
  assumes "\<forall>x. f x \<noteq> []"
  shows "\<exists>cs. max_dim1 (map (f \<circ> fst) data) = Inr cs \<and>
           length (filter (\<lambda>(c, label). c = label) (zip cs (map snd data))) =
           length (filter (\<lambda>(c, label). c = Inr label)
             (map (\<lambda>(x, label). (argmax (f x), label)) data))"
proof (induction data)
  case Nil
  show ?case by simp
next
  case (Cons a data)
  obtain x l where a: "a = (x, l)" by (cases a)
  from assms obtain c where c: "argmax (f x) = Inr c"
    using argmax_nonempty by blast
  from Cons.IH obtain cs where
    cs: "max_dim1 (map (f \<circ> fst) data) = Inr cs" and
    n: "length (filter (\<lambda>(c, label). c = label) (zip cs (map snd data))) =
        length (filter (\<lambda>(c, label). c = Inr label)
          (map (\<lambda>(x, label). (argmax (f x), label)) data))"
    by blast
  show ?case
    using a c cs n by (simp add: comp_def)
qed

lemma train_batch_step:
  assumes rows: "\<forall>x. forward nt True (cur_params st) x \<noteq> []"
    and pos: "0 < total st + length data"
  shows "\<exists>st'. train_batch nt epoch len st i data = Inr st' \<and>
           cur_params st' = optimizer_step nt (cur_params st) data \<and>
           correct st' = correct st + correct_count nt (cur_params st) [data] \<and>
           total st' = total st + length data \<and>
           length (progress st') = Suc (length (progress st)) \<and>
           line_acc (last (progress st')) = of_nat (correct st') * 100 / of_nat (total st')"
proof -
  from max_dim1_rows [OF rows, of data]
  obtain cs where
    cs: "max_dim1 (map (forward nt True (cur_params st) \<circ> fst) data) = Inr cs" and
    n: "length (filter (\<lambda>(c, label). c = label) (zip cs (map snd data))) =
        correct_count nt (cur_params st) [data]"
    by (auto simp: correct_count_Cons correct_count_Nil)
  have "avg (update (losses st) v 1) \<noteq> None" for v
    by (simp add: avg_def update_def)
  then obtain a where
    a: "avg (update (losses st)
          (cross_entropy nt (map (forward nt True (cur_params st) \<circ> fst) data) (map snd data)) 1)
        = Some a"
    by blast
  show ?thesis
    using cs n a pos
    by (simp add: train_batch_def Let_def)
qed

lemma train_loop_counts:
  assumes rows: "\<forall>p x. forward nt True p x \<noteq> []"
    and sizes: "\<forall>data \<in> set batches. data \<noteq> []"
  shows "\<exists>st'. train_loop nt epoch len st i batches = Inr st' \<and>
           correct st' = correct st + correct_count nt (cur_params st) batches \<and>
           total st' = total st + length (concat batches) \<and>
           length (progress st') = length (progress st) + length batches \<and>
           (batches = [] \<or>
            line_acc (last (progress st')) = of_nat (correct st') * 100 / of_nat (total st'))"
  using sizes
proof (induction batches arbitrary: st i)
  case Nil
  show ?case by (simp add: correct_count_Nil)
next
  case (Cons data rest)
  from Cons.prems have ne: "0 < total st + length data" and
    rest: "\<forall>d \<in> set rest. d \<noteq> []" by simp_all
  from rows have r: "\<forall>x. forward nt True (cur_params st) x \<noteq> []" by simp
  from train_batch_step [OF r ne, of epoch len i]
  obtain st1 where
    step: "train_batch nt epoch len st i data = Inr st1" and
    p1: "cur_params st1 = optimizer_step nt (cur_params st) data" and
    c1: "correct st1 = correct st + correct_count nt (cur_params st) [data]" and
    t1: "total st1 = total st + length data" and
    l1: "length (progress st1) = Suc (length (progress st))" and
    a1: "line_acc (last (progress st1)) = of_nat (correct st1) * 100 / of_nat (total st1)"
    by blast
  from Cons.IH [OF rest, of st1 "Suc i"]
  obtain st2 where
    loop: "train_loop nt epoch len st1 (Suc i) rest = Inr st2" and
    c2: "correct st2 = correct st1 + correct_count nt (cur_params st1) rest" and
    t2: "total st2 = total st1 + length (concat rest)" and
    l2: "length (progress st2) = length (progress st1) + length rest" and
    a2: "rest = [] \<or>
         line_acc (last (progress st2)) = of_nat (correct st2) * 100 / of_nat (total st2)"
    by blast
  have last: "line_acc (last (progress st2)) = of_nat (correct st2) * 100 / of_nat (total st2)"
  proof (cases rest)
    case Nil
    with loop have "st2 = st1" by simp
    with a1 show ?thesis by simp
  next
    case (Cons d ds)
    with a2 show ?thesis by simp
  qed
  have cc: "correct_count nt (cur_params st) (data # rest) =
            correct_count nt (cur_params st) [data] + correct_count nt (cur_params st1) rest"
    by (simp add: correct_count_Cons correct_count_Nil p1)
  show ?case
    using step loop c1 c2 t1 t2 l1 l2 last cc by simp
qed

lemma train_loop_append:
  "train_loop nt epoch len st i (xs @ ys) =
     (case train_loop nt epoch len st i xs of
        Inl e \<Rightarrow> Inl e
      | Inr st' \<Rightarrow> train_loop nt epoch len st' (i + length xs) ys)"
  by (induction xs arbitrary: st i) (simp_all split: sum.splits)

lemma concat_uniform:
  "\<forall>data \<in> set batches. length data = B \<Longrightarrow> length (concat batches) = length batches * B"
  by (induction batches) simp_all

text \<open>
  Claim C2, as amended. In any epoch and from any parameters, after the training loop has
  processed \<open>N \<ge> 1\<close> batches of \<open>B \<ge> 1\<close> samples each (the model giving every sample at
  least one score), whatever batches follow, the loop has shown \<open>N\<close> progress lines and the
  running top-1 accuracy on the last one is the percentage
  \<open>100 * correct_count / (N * B)\<close>, where \<open>correct_count\<close> is the number of samples of
  those batches whose predicted class equals the label.
\<close>

theorem running_accuracy_percent:
  assumes "batches \<noteq> []"
    and "\<forall>data \<in> set batches. length data = B"
    and "0 < B"
    and "\<forall>p x. forward nt True p x \<noteq> []"
  shows "\<exists>st. train_loop nt epoch len (train_start p) 0 batches = Inr st \<and>
           (\<forall>rest. train_loop nt epoch len (train_start p) 0 (batches @ rest) =
                   train_loop nt epoch len st (length batches) rest) \<and>
           length (progress st) = length batches \<and>
           line_acc (last (progress st)) =
             100 * of_nat (correct_count nt p batches) / of_nat (length batches * B)"
proof -
  from assms(2,3) have ne: "\<forall>data \<in> set batches. data \<noteq> []" by auto
  from train_loop_counts [OF assms(4) ne, of epoch len "train_start p" 0]
  obtain st where
    loop: "train_loop nt epoch len (train_start p) 0 batches = Inr st" and
    c: "correct st = correct_count nt p batches" and
    t: "total st = length (concat batches)" and
    l: "length (progress st) = length batches" and
    a: "line_acc (last (progress st)) = of_nat (correct st) * 100 / of_nat (total st)"
    using assms(1) by (auto simp: train_start_def)
  from t have t': "total st = length batches * B"
    by (simp add: concat_uniform [OF assms(2)])
  from loop have
    "\<forall>rest. train_loop nt epoch len (train_start p) 0 (batches @ rest) =
            train_loop nt epoch len st (length batches) rest"
    by (simp add: train_loop_append)
  then show ?thesis
    using loop l a c t' by (simp add: mult.commute)
qed

theorem running_accuracy_percent_witness:
  "\<exists>st. train_loop example_net 1 1 (train_start 0) 0 [[(0, 0), (1, 0)]] = Inr st \<and>
     length (progress st) = 1 \<and> line_acc (last (progress st)) = 50"
proof -
  have "\<exists>st. train_loop example_net 1 1 (train_start 0) 0 [[(0, 0), (1, 0)]] = Inr st \<and>
          (\<forall>rest. train_loop example_net 1 1 (train_start 0) 0 ([[(0, 0), (1, 0)]] @ rest) =
                  train_loop example_net 1 1 st (length [[(0::nat, 0::nat), (1, 0)]]) rest) \<and>
          length (progress st) = length [[(0::nat, 0::nat), (1, 0)]] \<and>
          line_acc (last (progress st)) =
            100 * of_nat (correct_count example_net 0 [[(0, 0), (1, 0)]]) /
            of_nat (length [[(0::nat, 0::nat), (1, 0)]] * 2)"
    by (rule running_accuracy_percent) (simp_all add: example_net_def)
  moreover have "correct_count example_net 0 [[(0, 0), (1, 0)]] = 1"
    by (simp add: correct_count_def example_net_def)
  ultimately show ?thesis by auto
qed

text \<open>
  The claim as stated gives the fraction \<open>correct_count / (N * B)\<close>. One batch of two
  samples, one of them predicted correctly: the loop reports 50, the fraction is 1/2.
\<close>

theorem running_accuracy_fraction_counterexample:
  "\<exists>st. train_loop example_net 1 1 (train_start 0) 0 [[(0, 0), (1, 0)]] = Inr st \<and>
     line_acc (last (progress st)) = 50 \<and>
     of_nat (correct_count example_net 0 [[(0, 0), (1, 0)]]) / of_nat (1 * 2) = (1 / 2 :: rat)"
  by (simp add: example_net_def correct_count_def train_start_def train_batch_def
      fresh_meter_def update_def avg_def Let_def)


section \<open>Entry point: best-result record and checkpoint writes\<close>

text \<open>
  \<^verbatim>\<open>main\<close> from the point where the model, the loaders and the optimizer exist, up to
  the end of training. Of the parsed arguments the record keeps those that this part and
  the visualization read. What the run does to the outside
  is a list of events: the progress lines of the loops, the \<^verbatim>\<open>print\<close> calls and the
  calls \<^verbatim>\<open>torch.save(model.state_dict(), filename)\<close>, each with the file name and the
  parameter snapshot it is given. \<^verbatim>\<open>torch.load\<close> is a parameter \<open>load\<close>: the snapshot a
  path holds, or the error raised. The training loader reshuffles in every epoch, so it is
  a function of the epoch.
\<close>

record args =
  epochs :: int
  feature_num :: int
  train_flag :: bool
  save_model :: bool
  restore_model :: "string option"
  cnn :: bool

datatype 'p event =
    TrainProgress train_line
  | TestProgress test_line
  | PrintBest rat rat
  | PrintNewBest rat rat
  | Save string 'p
  | PrintSaving string
  | PrintBestInEpochs rat rat int

record 'p run =
  cur_model :: "'p model"
  best_top1 :: rat
  best_top5 :: rat
  events :: "'p event list"

definition checkpoint_name :: "args \<Rightarrow> string" where
  "checkpoint_name a = (if cnn a then ''cnn-mnist.pth'' else ''transformer-mnist.pth'')"

definition epoch_body ::
  "('p, 'x) net \<Rightarrow> args \<Rightarrow> (int \<Rightarrow> 'x batch list) \<Rightarrow> 'x batch list \<Rightarrow> 'p run \<Rightarrow> int \<Rightarrow>
     error + 'p run" where
  "epoch_body nt a train_loader test_loader r epoch =
     (case train nt (cur_model r) (train_loader epoch) test_loader epoch of
        Inl e \<Rightarrow> Inl e
      | Inr ((top1, top5), m', train_lines, test_lines) \<Rightarrow>
          let r1 = r\<lparr>cur_model := m',
                     events := events r @ map TrainProgress train_lines @
                               map TestProgress test_lines\<rparr>
          in if top1 > best_top1 r1 then
               let r2 = r1\<lparr>events := events r1 @ [PrintNewBest top1 top5],
                           best_top1 := top1, best_top5 := top5\<rparr>
               in if save_model a then
                    let filename = checkpoint_name a
                    in Inr (r2\<lparr>events := events r2 @
                                 [Save filename (params (cur_model r2)), PrintSaving filename]\<rparr>)
                  else Inr r2
             else Inr r1)"

fun epochs_loop ::
  "('p, 'x) net \<Rightarrow> args \<Rightarrow> (int \<Rightarrow> 'x batch list) \<Rightarrow> 'x batch list \<Rightarrow> 'p run \<Rightarrow> int list \<Rightarrow>
     error + 'p run" where
  "epochs_loop nt a train_loader test_loader r [] = Inr r"
| "epochs_loop nt a train_loader test_loader r (epoch # rest) =
     (case epoch_body nt a train_loader test_loader r epoch of
        Inl e \<Rightarrow> Inl e
      | Inr r' \<Rightarrow> epochs_loop nt a train_loader test_loader r' rest)"

text \<open>\<^verbatim>\<open>best_top1 = 0\<close>, \<^verbatim>\<open>best_top5 = 0\<close>, then the optional restore and evaluation,
  then the epochs \<^verbatim>\<open>range(1, args.epochs + 1)\<close> when \<^verbatim>\<open>--train\<close> is given.\<close>

definition start_run :: "'p model \<Rightarrow> 'p run" where
  "start_run m = \<lparr>cur_model = m, best_top1 = 0, best_top5 = 0, events = []\<rparr>"

definition restore ::
  "('p, 'x) net \<Rightarrow> args \<Rightarrow> (string \<Rightarrow> error + 'p) \<Rightarrow> 'x batch list \<Rightarrow> 'p run \<Rightarrow> error + 'p run" where
  "restore nt a load test_loader r =
     (case restore_model a of
        None \<Rightarrow> Inr r
      | Some path \<Rightarrow>
          (case load path of
             Inl e \<Rightarrow> Inl e
           | Inr p \<Rightarrow>
               (case test nt ((cur_model r)\<lparr>params := p\<rparr>) test_loader of
                  Inl e \<Rightarrow> Inl e
                | Inr ((top1, top5), m', test_lines) \<Rightarrow>
                    Inr (r\<lparr>cur_model := m', best_top1 := top1, best_top5 := top5,
                           events := events r @ map TestProgress test_lines @
                                     [PrintBest top1 top5]\<rparr>))))"

definition main ::
  "('p, 'x) net \<Rightarrow> args \<Rightarrow> (string \<Rightarrow> error + 'p) \<Rightarrow> (int \<Rightarrow> 'x batch list) \<Rightarrow> 'x batch list \<Rightarrow>
     'p model \<Rightarrow> error + 'p run" where
  "main nt a load train_loader test_loader m =
     (case restore nt a load test_loader (start_run m) of
        Inl e \<Rightarrow> Inl e
      | Inr r \<Rightarrow>
          if train_flag a then
            (case epochs_loop nt a train_loader test_loader r [1..epochs a] of
               Inl e \<Rightarrow> Inl e
             | Inr r' \<Rightarrow>
                 Inr (r'\<lparr>events := events r' @
                          [PrintBestInEpochs (best_top1 r') (best_top5 r') (epochs a)]\<rparr>))
          else Inr r)"

text \<open>The checkpoint writes among a list of events, in order.\<close>

fun saved :: "'p event list \<Rightarrow> (string \<times> 'p) list" where
  "saved [] = []"
| "saved (Save filename p # evs) = (filename, p) # saved evs"
| "saved (ev # evs) = saved evs"

text \<open>A concrete run: two epochs with \<^verbatim>\<open>--train --save-model\<close>, one training batch per
  epoch, three evaluation samples in two batches.\<close>

definition example_args :: args where
  "example_args = \<lparr>epochs = 2, feature_num = 0, train_flag = True, save_model = True,
     restore_model = None, cnn = False\<rparr>"

definition example_test_loader :: "nat batch list" where
  "example_test_loader = [[(0, 0), (1, 0)], [(2, 0)]]"

definition example_train_loader :: "int \<Rightarrow> nat batch list" where
  "example_train_loader epoch = [[(0, 0), (1, 0)]]"


lemma saved_append: "saved (xs @ ys) = saved xs @ saved ys"
  by (induction xs rule: saved.induct) simp_all

lemma saved_train_lines: "saved (map TrainProgress ls) = []"
  by (induction ls) simp_all

lemma saved_test_lines: "saved (map TestProgress ls) = []"
  by (induction ls) simp_all

lemma epoch_body_cases:
  assumes "epoch_body nt a train_loader test_loader r epoch = Inr r'"
  shows "\<exists>top1 top5 m' train_lines test_lines.
           train nt (cur_model r) (train_loader epoch) test_loader epoch =
             Inr ((top1, top5), m', train_lines, test_lines) \<and>
           (if best_top1 r < top1
            then best_top1 r' = top1 \<and> best_top5 r' = top5 \<and>
                 saved (events r') =
                   saved (events r) @
                   (if save_model a then [(checkpoint_name a, params m')] else [])
            else best_top1 r' = best_top1 r \<and> best_top5 r' = best_top5 r \<and>
                 saved (events r') = saved (events r))"
proof (cases "train nt (cur_model r) (train_loader epoch) test_loader epoch")
  case (Inl e)
  with assms show ?thesis by (simp add: epoch_body_def)
next
  case (Inr res)
  obtain top1 top5 m' tl el where res: "res = ((top1, top5), m', tl, el)"
    by (metis prod_cases4 surj_pair)
  show ?thesis
    using assms Inr res
    by (auto simp: epoch_body_def Let_def saved_append saved_train_lines saved_test_lines
        split: if_splits)
qed

lemma epochs_loop_append:
  "epochs_loop nt a train_loader test_loader r (xs @ ys) =
     (case epochs_loop nt a train_loader test_loader r xs of
        Inl e \<Rightarrow> Inl e
      | Inr r' \<Rightarrow> epochs_loop nt a train_loader test_loader r' ys)"
  by (induction xs arbitrary: r) (simp_all split: sum.splits)

text \<open>
  Claim C6. Take any run of the epoch loop, from any best-so-far record, and any epoch of it
  that completes. If the epoch's top1 strictly exceeds the record's top1, the record becomes
  that epoch's (top1, top5) and, with \<^verbatim>\<open>--save-model\<close>, exactly one checkpoint is written:
  the parameter snapshot after that epoch, under the variant's file name. Otherwise (top1
  less than or equal to the record) the record is unchanged and nothing is written. An
  epoch that raises stops the run before its write. A run of \<^verbatim>\<open>main\<close> writes nothing
  outside the epoch loop: the restore writes nothing, and the writes and the record at the
  end are those of the loop over the epochs 1 to \<^verbatim>\<open>args.epochs\<close>.
\<close>

lemma restore_writes_nothing:
  assumes "restore nt a load test_loader r = Inr r1"
  shows "saved (events r1) = saved (events r)"
  using assms
  by (auto simp: restore_def saved_append saved_test_lines
      split: option.splits sum.splits prod.splits)

theorem checkpoint_only_on_strict_improvement:
  "(epochs_loop nt a train_loader test_loader r0 (before @ [epoch]) = Inr r' \<longrightarrow>
      (\<exists>r top1 top5 m' train_lines test_lines.
         epochs_loop nt a train_loader test_loader r0 before = Inr r \<and>
         train nt (cur_model r) (train_loader epoch) test_loader epoch =
           Inr ((top1, top5), m', train_lines, test_lines) \<and>
         (if best_top1 r < top1
          then best_top1 r' = top1 \<and> best_top5 r' = top5 \<and>
               saved (events r') =
                 saved (events r) @
                 (if save_model a then [(checkpoint_name a, params m')] else [])
          else best_top1 r' = best_top1 r \<and> best_top5 r' = best_top5 r \<and>
               saved (events r') = saved (events r)))) \<and>
   (main nt a load train_loader test_loader m = Inr r_end \<longrightarrow>
      (\<exists>r1. restore nt a load test_loader (start_run m) = Inr r1 \<and>
         saved (events r1) = [] \<and>
         (if train_flag a
          then \<exists>r2. epochs_loop nt a train_loader test_loader r1 [1..epochs a] = Inr r2 \<and>
                 saved (events r_end) = saved (events r2) \<and>
                 best_top1 r_end = best_top1 r2 \<and> best_top5 r_end = best_top5 r2
          else r_end = r1)))"
proof (intro conjI impI)
  assume run: "epochs_loop nt a train_loader test_loader r0 (before @ [epoch]) = Inr r'"
  show "\<exists>r top1 top5 m' train_lines test_lines.
         epochs_loop nt a train_loader test_loader r0 before = Inr r \<and>
         train nt (cur_model r) (train_loader epoch) test_loader epoch =
           Inr ((top1, top5), m', train_lines, test_lines) \<and>
         (if best_top1 r < top1
          then best_top1 r' = top1 \<and> best_top5 r' = top5 \<and>
               saved (events r') =
                 saved (events r) @
                 (if save_model a then [(checkpoint_name a, params m')] else [])
          else best_top1 r' = best_top1 r \<and> best_top5 r' = best_top5 r \<and>
               saved (events r') = saved (events r))"
  proof (cases "epochs_loop nt a train_loader test_loader r0 before")
    case (Inl e)
    with run show ?thesis by (simp add: epochs_loop_append)
  next
    case (Inr r)
    with run have "epoch_body nt a train_loader test_loader r epoch = Inr r'"
      by (simp add: epochs_loop_append split: sum.splits)
    from epoch_body_cases [OF this] Inr show ?thesis by blast
  qed
next
  assume run: "main nt a load train_loader test_loader m = Inr r_end"
  then obtain r1 where r1: "restore nt a load test_loader (start_run m) = Inr r1"
    by (auto simp: main_def split: sum.splits)
  from restore_writes_nothing [OF r1] have none: "saved (events r1) = []"
    by (simp add: start_run_def)
  have rest: "if train_flag a
          then \<exists>r2. epochs_loop nt a train_loader test_loader r1 [1..epochs a] = Inr r2 \<and>
                 saved (events r_end) = saved (events r2) \<and>
                 best_top1 r_end = best_top1 r2 \<and> best_top5 r_end = best_top5 r2
          else r_end = r1"
    using run r1
    by (auto simp: main_def saved_append split: sum.splits if_splits)
  from r1 none rest
  show "\<exists>r1. restore nt a load test_loader (start_run m) = Inr r1 \<and>
         saved (events r1) = [] \<and>
         (if train_flag a
          then \<exists>r2. epochs_loop nt a train_loader test_loader r1 [1..epochs a] = Inr r2 \<and>
                 saved (events r_end) = saved (events r2) \<and>
                 best_top1 r_end = best_top1 r2 \<and> best_top5 r_end = best_top5 r2
          else r_end = r1)"
    by blast
qed

lemma epoch_body_best:
  assumes "epoch_body nt a train_loader test_loader r epoch = Inr r'"
  shows "best_top1 r < best_top1 r' \<or>
         (best_top1 r' = best_top1 r \<and> best_top5 r' = best_top5 r)"
  using epoch_body_cases [OF assms] by (auto split: if_splits)

lemma epochs_loop_best:
  assumes "epochs_loop nt a train_loader test_loader r es = Inr r'"
  shows "best_top1 r < best_top1 r' \<or>
         (best_top1 r' = best_top1 r \<and> best_top5 r' = best_top5 r)"
  using assms
proof (induction es arbitrary: r)
  case Nil
  then show ?case by simp
next
  case (Cons e es)
  then obtain r1 where
    b: "epoch_body nt a train_loader test_loader r e = Inr r1" and
    l: "epochs_loop nt a train_loader test_loader r1 es = Inr r'"
    by (auto split: sum.splits)
  from epoch_body_best [OF b] Cons.IH [OF l] show ?case by auto
qed


definition example_start :: "nat run" where
  "example_start = start_run \<lparr>params = 0, training = False\<rparr>"

lemmas example_unfold =
  example_start_def start_run_def example_args_def example_train_loader_def
  example_test_loader_def example_net_def epoch_body_def train_def test_def train_start_def
  train_batch_def test_batch_def accuracy_def hits_def in_topk_def update_def avg_def
  fresh_meter_def Let_def checkpoint_name_def

lemma example_after_1:
  "\<exists>r. epochs_loop example_net example_args example_train_loader example_test_loader
          example_start [1] = Inr r \<and>
       best_top1 r = 100 / 3 \<and> best_top5 r = 100 \<and>
       saved (events r) = [(''transformer-mnist.pth'', 1)]"
  by (simp add: example_unfold)

lemma example_after_2:
  "\<exists>r. epochs_loop example_net example_args example_train_loader example_test_loader
          example_start [1, 2] = Inr r \<and>
       best_top1 r = 200 / 3 \<and> best_top5 r = 200 / 3 \<and>
       saved (events r) = [(''transformer-mnist.pth'', 1), (''transformer-mnist.pth'', 2)]"
  by (simp add: example_unfold)

lemma example_after_3:
  "\<exists>r. epochs_loop example_net example_args example_train_loader example_test_loader
          example_start [1, 2, 3] = Inr r \<and>
       best_top1 r = 200 / 3 \<and> best_top5 r = 200 / 3 \<and>
       saved (events r) = [(''transformer-mnist.pth'', 1), (''transformer-mnist.pth'', 2)]"
  by (simp add: example_unfold)

lemma upto_1_2: "[1..(2::int)] = [1, 2]"
  by (simp add: upto.simps)

lemma example_main:
  "\<exists>r. main example_net example_args (\<lambda>path. Inl FileNotFoundError) example_train_loader
          example_test_loader \<lparr>params = 0, training = False\<rparr> = Inr r \<and>
       best_top1 r = 200 / 3 \<and> best_top5 r = 200 / 3"
proof -
  from example_after_2 obtain r where
    r: "epochs_loop example_net example_args example_train_loader example_test_loader
          example_start [1, 2] = Inr r" and
    b: "best_top1 r = 200 / 3" "best_top5 r = 200 / 3"
    by blast
  have e: "epochs example_args = 2" "train_flag example_args" "restore_model example_args = None"
    by (simp_all add: example_args_def)
  show ?thesis
    using r b e by (simp add: main_def restore_def upto_1_2 example_start_def)
qed

theorem checkpoint_only_on_strict_improvement_witness:
  "\<exists>r r'.
     epochs_loop example_net example_args example_train_loader example_test_loader
       example_start [1, 2] = Inr r \<and>
     epochs_loop example_net example_args example_train_loader example_test_loader
       example_start ([1, 2] @ [3]) = Inr r' \<and>
     best_top1 r' = best_top1 r \<and> best_top5 r' = best_top5 r \<and>
     saved (events r') = saved (events r)"
proof -
  from example_after_3 obtain r' where
    r': "epochs_loop example_net example_args example_train_loader example_test_loader
           example_start ([1, 2] @ [3]) = Inr r'" and
    b': "best_top1 r' = 200 / 3" "best_top5 r' = 200 / 3"
        "saved (events r') = [(''transformer-mnist.pth'', 1), (''transformer-mnist.pth'', 2)]"
    by auto
  from checkpoint_only_on_strict_improvement
    [of example_net example_args example_train_loader example_test_loader example_start
        "[1, 2]" 3 r'] r'
  obtain r where
    r: "epochs_loop example_net example_args example_train_loader example_test_loader
          example_start [1, 2] = Inr r"
    by blast
  with example_after_2 have
    "best_top1 r = 200 / 3" "best_top5 r = 200 / 3"
    "saved (events r) = [(''transformer-mnist.pth'', 1), (''transformer-mnist.pth'', 2)]"
    by auto
  with r r' b' show ?thesis by auto
qed

text \<open>
  Claim C9. Between any earlier and later point of a run of the epoch loop, the best-result
  record is either unchanged or its top1 is strictly larger; an epoch that improves top1
  overwrites the recorded top5 with its own top5, and an epoch that does not leaves both;
  and there is a run (the concrete one above) whose final recorded top5 is lower than the
  top5 recorded after an earlier epoch.
\<close>

theorem best_top1_increases_top5_overwritten:
  "(epochs_loop nt a train_loader test_loader r0 (earlier @ later) = Inr r \<longrightarrow>
      (\<exists>r1. epochs_loop nt a train_loader test_loader r0 earlier = Inr r1 \<and>
         (best_top1 r1 < best_top1 r \<or>
          (best_top1 r = best_top1 r1 \<and> best_top5 r = best_top5 r1)))) \<and>
   (epoch_body nt a train_loader test_loader r0 epoch = Inr r' \<longrightarrow>
      (\<exists>top1 top5 m' train_lines test_lines.
         train nt (cur_model r0) (train_loader epoch) test_loader epoch =
           Inr ((top1, top5), m', train_lines, test_lines) \<and>
         (if best_top1 r0 < top1
          then best_top1 r' = top1 \<and> best_top5 r' = top5
          else best_top1 r' = best_top1 r0 \<and> best_top5 r' = best_top5 r0))) \<and>
   (\<exists>r1 r2.
      epochs_loop example_net example_args example_train_loader example_test_loader
        example_start [1] = Inr r1 \<and>
      main example_net example_args (\<lambda>path. Inl FileNotFoundError) example_train_loader
        example_test_loader \<lparr>params = 0, training = False\<rparr> = Inr r2 \<and>
      best_top1 r1 < best_top1 r2 \<and> best_top5 r2 < best_top5 r1)"
proof (intro conjI impI)
  assume run: "epochs_loop nt a train_loader test_loader r0 (earlier @ later) = Inr r"
  then obtain r1 where
    1: "epochs_loop nt a train_loader test_loader r0 earlier = Inr r1" and
    2: "epochs_loop nt a train_loader test_loader r1 later = Inr r"
    by (auto simp: epochs_loop_append split: sum.splits)
  from epochs_loop_best [OF 2] 1
  show "\<exists>r1. epochs_loop nt a train_loader test_loader r0 earlier = Inr r1 \<and>
         (best_top1 r1 < best_top1 r \<or>
          (best_top1 r = best_top1 r1 \<and> best_top5 r = best_top5 r1))"
    by auto
next
  assume "epoch_body nt a train_loader test_loader r0 epoch = Inr r'"
  from epoch_body_cases [OF this]
  show "\<exists>top1 top5 m' train_lines test_lines.
         train nt (cur_model r0) (train_loader epoch) test_loader epoch =
           Inr ((top1, top5), m', train_lines, test_lines) \<and>
         (if best_top1 r0 < top1
          then best_top1 r' = top1 \<and> best_top5 r' = top5
          else best_top1 r' = best_top1 r0 \<and> best_top5 r' = best_top5 r0)"
    by (auto split: if_splits)
next
  from example_after_1 example_main
  show "\<exists>r1 r2.
      epochs_loop example_net example_args example_train_loader example_test_loader
        example_start [1] = Inr r1 \<and>
      main example_net example_args (\<lambda>path. Inl FileNotFoundError) example_train_loader
        example_test_loader \<lparr>params = 0, training = False\<rparr> = Inr r2 \<and>
      best_top1 r1 < best_top1 r2 \<and> best_top5 r2 < best_top5 r1"
    by auto
qed

theorem best_top1_increases_top5_overwritten_witness:
  "\<exists>r1 r.
     epochs_loop example_net example_args example_train_loader example_test_loader
       example_start [1] = Inr r1 \<and>
     epochs_loop example_net example_args example_train_loader example_test_loader
       example_start ([1] @ [2]) = Inr r \<and>
     best_top1 r1 < best_top1 r \<and> best_top5 r < best_top5 r1"
proof -
  from example_after_2 obtain r where
    r: "epochs_loop example_net example_args example_train_loader example_test_loader
          example_start ([1] @ [2]) = Inr r" and
    b: "best_top1 r = 200 / 3" "best_top5 r = 200 / 3"
    by auto
  from best_top1_increases_top5_overwritten
    [of example_net example_args example_train_loader example_test_loader
        example_start "[1]" "[2]" r] r
  obtain r1 where
    r1: "epochs_loop example_net example_args example_train_loader example_test_loader
           example_start [1] = Inr r1"
    by blast
  with example_after_1 have "best_top1 r1 = 100 / 3" "best_top5 r1 = 100"
    by auto
  with r r1 b show ?thesis by auto
qed


section \<open>Checkpoint manager\<close>

text \<open>
  Modelled from the spec: the script has no checkpoint code of its own; it hands the snapshot
  to \<^verbatim>\<open>torch.save\<close> and reads it back with \<^verbatim>\<open>torch.load\<close> and \<^verbatim>\<open>load_state_dict\<close>,
  which are not among the sources. The spec describes \<^verbatim>\<open>save(parameters, path)\<close> as
  writing the full parameter snapshot to the path, overwriting any existing file, and
  \<^verbatim>\<open>restore(path)\<close> as reading back a snapshot written by \<^verbatim>\<open>save\<close>, failing with a
  LoadError when the file is absent, corrupt, or of a shape that does not fit the model
  currently constructed. The files are a map from paths to their content; \<open>shape_of\<close>
  gives the shape of a snapshot and \<open>current\<close> is the snapshot of the constructed model.
\<close>

datatype 'p checkpoint_file = Snapshot 'p | Corrupt

definition save_checkpoint :: "(string \<rightharpoonup> 'p checkpoint_file) \<Rightarrow> 'p \<Rightarrow> string \<Rightarrow> (string \<rightharpoonup> 'p checkpoint_file)" where
  "save_checkpoint files P path = files(path \<mapsto> Snapshot P)"

definition restore_checkpoint ::
  "('p \<Rightarrow> 's) \<Rightarrow> 'p \<Rightarrow> (string \<rightharpoonup> 'p checkpoint_file) \<Rightarrow> string \<Rightarrow> error + 'p" where
  "restore_checkpoint shape_of current files path =
     (case files path of
        None \<Rightarrow> Inl LoadError
      | Some Corrupt \<Rightarrow> Inl LoadError
      | Some (Snapshot P) \<Rightarrow>
          if shape_of P = shape_of current then Inr P else Inl LoadError)"

text \<open>
  Claim C3. Whatever the files held before, restoring the checkpoint that \<^verbatim>\<open>save\<close> wrote
  for a snapshot \<open>P\<close> gives back exactly \<open>P\<close>, into the model it came from and into any
  model of the same shape. Consequently, when \<^verbatim>\<open>--restore-model\<close> names a checkpoint
  saved from a model A, a freshly constructed model of A's shape is given A's parameters
  and the evaluation that follows records the same (top1, top5) as evaluating A itself.
\<close>

theorem checkpoint_round_trip:
  "restore_checkpoint shape_of P (save_checkpoint files P path) path = Inr P \<and>
   (shape_of current = shape_of P \<longrightarrow>
      restore_checkpoint shape_of current (save_checkpoint files P path) path = Inr P) \<and>
   (shape_of (params fresh) = shape_of (params model_A) \<and>
    restore_model a = Some path \<and>
    test nt model_A test_loader = Inr ((top1, top5), model_A', lines) \<longrightarrow>
      (\<exists>r. restore nt a
              (restore_checkpoint shape_of (params fresh)
                 (save_checkpoint files' (params model_A) path))
              test_loader (start_run fresh) = Inr r \<and>
           params (cur_model r) = params model_A \<and>
           best_top1 r = top1 \<and> best_top5 r = top5))"
proof (intro conjI impI)
  show "restore_checkpoint shape_of P (save_checkpoint files P path) path = Inr P"
    by (simp add: restore_checkpoint_def save_checkpoint_def)
next
  assume "shape_of current = shape_of P"
  then show "restore_checkpoint shape_of current (save_checkpoint files P path) path = Inr P"
    by (simp add: restore_checkpoint_def save_checkpoint_def)
next
  assume h: "shape_of (params fresh) = shape_of (params model_A) \<and>
    restore_model a = Some path \<and>
    test nt model_A test_loader = Inr ((top1, top5), model_A', lines)"
  then have load:
    "restore_checkpoint shape_of (params fresh)
       (save_checkpoint files' (params model_A) path) path = Inr (params model_A)"
    by (simp add: restore_checkpoint_def save_checkpoint_def)
  have "params (fresh\<lparr>params := params model_A\<rparr>) = params model_A" by simp
  from test_same_parameters [OF this, of nt test_loader] h
  have run: "test nt (fresh\<lparr>params := params model_A\<rparr>) test_loader =
               Inr ((top1, top5), model_A', lines)"
    by simp
  then have kept: "params model_A' = params model_A"
    by (auto simp: test_def Let_def split: sum.splits option.splits prod.splits)
  from h load run kept
  show "\<exists>r. restore nt a
              (restore_checkpoint shape_of (params fresh)
                 (save_checkpoint files' (params model_A) path))
              test_loader (start_run fresh) = Inr r \<and>
           params (cur_model r) = params model_A \<and>
           best_top1 r = top1 \<and> best_top5 r = top5"
    by (simp add: restore_def start_run_def)
qed

lemma example_test_at_2:
  "\<exists>m' lines. test example_net \<lparr>params = 2, training = True\<rparr> example_test_loader =
     Inr ((200 / 3, 200 / 3), m', lines)"
  by (simp add: example_unfold)

theorem checkpoint_round_trip_witness:
  "restore_checkpoint (\<lambda>p. p mod 2) (0 :: nat)
     (save_checkpoint Map.empty 2 ''transformer-mnist.pth'') ''transformer-mnist.pth'' = Inr 2 \<and>
   (\<exists>r. restore example_net (example_args\<lparr>restore_model := Some ''transformer-mnist.pth''\<rparr>)
           (restore_checkpoint (\<lambda>p. p mod 2) 0
              (save_checkpoint Map.empty 2 ''transformer-mnist.pth''))
           example_test_loader (start_run \<lparr>params = 0, training = True\<rparr>) = Inr r \<and>
         params (cur_model r) = 2 \<and>
         best_top1 r = 200 / 3 \<and> best_top5 r = 200 / 3)"
proof -
  from example_test_at_2 obtain m' lines where
    t: "test example_net \<lparr>params = 2, training = True\<rparr> example_test_loader =
          Inr ((200 / 3, 200 / 3), m', lines)"
    by blast
  from checkpoint_round_trip
    [of "\<lambda>p. p mod 2" 2 Map.empty "''transformer-mnist.pth''" 0
        "\<lparr>params = 0, training = True\<rparr>" "\<lparr>params = 2, training = True\<rparr>"
        "example_args\<lparr>restore_model := Some ''transformer-mnist.pth''\<rparr>"
        example_net example_test_loader "200 / 3" "200 / 3" m' lines Map.empty] t
  show ?thesis by simp
qed

section \<open>Convolutional model\<close>

text \<open>
  \<^verbatim>\<open>CNNModel\<close>: the \<^verbatim>\<open>nn.Sequential\<close> it builds, layer by layer, with the constructor
  arguments of the source (channels in, filters, kernel size; pool size; dropout rate;
  features in and out). \<open>layer_shape\<close> is the shape each layer gives a batched input of a
  given shape, or the error it raises on a shape it does not accept: a convolution without
  padding and with stride one, a pooling whose stride is its window, \<^verbatim>\<open>Flatten\<close> from
  dimension one, \<^verbatim>\<open>Linear\<close> on the last dimension. \<open>forward_shape\<close> runs the layers in
  order, as \<^verbatim>\<open>forward\<close> does.
\<close>

datatype layer =
    Conv2d nat nat nat
  | ReLU
  | MaxPool2d nat
  | Dropout rat
  | Flatten
  | Linear nat nat

definition CNNModel :: "nat \<Rightarrow> layer list" where
  "CNNModel n_classes =
     [Conv2d 1 64 3,
      ReLU,
      MaxPool2d 2,
      Conv2d 64 64 3,
      ReLU,
      MaxPool2d 2,
      Conv2d 64 64 3,
      Dropout (2 / 10),
      Flatten,
      Linear (64 * 3 * 3) n_classes]"

type_synonym shape = "nat list"

fun layer_shape :: "layer \<Rightarrow> shape \<Rightarrow> error + shape" where
  "layer_shape (Conv2d c_in c_out k) [n, c, h, w] =
     (if c = c_in \<and> 0 < k \<and> k \<le> h \<and> k \<le> w
      then Inr [n, c_out, h - k + 1, w - k + 1] else Inl RuntimeError)"
| "layer_shape (Conv2d c_in c_out k) s = Inl RuntimeError"
| "layer_shape ReLU s = Inr s"
| "layer_shape (MaxPool2d k) [n, c, h, w] =
     (if 0 < k \<and> k \<le> h \<and> k \<le> w
      then Inr [n, c, (h - k) div k + 1, (w - k) div k + 1] else Inl RuntimeError)"
| "layer_shape (MaxPool2d k) s = Inl RuntimeError"
| "layer_shape (Dropout p) s = Inr s"
| "layer_shape Flatten (n # d # ds) = Inr [n, prod_list (d # ds)]"
| "layer_shape Flatten s = Inl RuntimeError"
| "layer_shape (Linear f_in f_out) s =
     (if s \<noteq> [] \<and> last s = f_in then Inr (butlast s @ [f_out]) else Inl RuntimeError)"

fun forward_shape :: "layer list \<Rightarrow> shape \<Rightarrow> error + shape" where
  "forward_shape [] s = Inr s"
| "forward_shape (l # ls) s =
     (case layer_shape l s of Inl e \<Rightarrow> Inl e | Inr s' \<Rightarrow> forward_shape ls s')"

text \<open>The kind of each layer, and for every convolution the kind of the layer right after
  it: what the claim about the stages speaks of.\<close>

datatype kind = Convolution | Activation | Pooling | DropoutKind | Flattening | Projection

fun kind_of :: "layer \<Rightarrow> kind" where
  "kind_of (Conv2d c_in c_out k) = Convolution"
| "kind_of ReLU = Activation"
| "kind_of (MaxPool2d k) = Pooling"
| "kind_of (Dropout p) = DropoutKind"
| "kind_of Flatten = Flattening"
| "kind_of (Linear f_in f_out) = Projection"

fun after_convolutions :: "layer list \<Rightarrow> kind option list" where
  "after_convolutions [] = []"
| "after_convolutions (Conv2d c_in c_out k # rest) =
     (case rest of [] \<Rightarrow> None | l # ls \<Rightarrow> Some (kind_of l)) # after_convolutions rest"
| "after_convolutions (l # rest) = after_convolutions rest"

text \<open>
  Claim C5, as amended. The convolutional model has three convolutions; the first two are
  each followed by an activation and then a pooling, the third is followed directly by the
  dropout (no activation), then come the flattening and a single linear projection to the
  class scores. On a batch of shape (K, 1, 28, 28) with \<open>K \<ge> 1\<close> its forward pass returns
  shape (K, n_classes), which is (K, 10) for the model the script builds.
\<close>

theorem cnn_structure_and_logits_shape:
  "map kind_of (CNNModel n_classes) =
     [Convolution, Activation, Pooling,
      Convolution, Activation, Pooling,
      Convolution, DropoutKind, Flattening, Projection] \<and>
   after_convolutions (CNNModel n_classes) =
     [Some Activation, Some Activation, Some DropoutKind] \<and>
   (1 \<le> K \<longrightarrow> forward_shape (CNNModel n_classes) [K, 1, 28, 28] = Inr [K, n_classes])"
  by (simp add: CNNModel_def)

theorem cnn_structure_and_logits_shape_witness:
  "forward_shape (CNNModel 10) [2, 1, 28, 28] = Inr [2, 10]"
  using cnn_structure_and_logits_shape [of 10 2] by simp

text \<open>The claim as stated has every convolution followed by an activation; the third one
  is not.\<close>

theorem cnn_third_convolution_counterexample:
  "\<not> (\<forall>follower \<in> set (after_convolutions (CNNModel 10)). follower = Some Activation)"
  by (simp add: CNNModel_def)


section \<open>Visualization\<close>

text \<open>
  \<^verbatim>\<open>viz_features\<close> and the normalization in \<^verbatim>\<open>plot_data\<close>. A numpy array is a nested
  array over its entries; \<open>flatten\<close> lists the entries, \<open>squeeze\<close> drops every axis of
  length one. \<^verbatim>\<open>np.amin\<close> and \<^verbatim>\<open>np.amax\<close> raise on an array with no entry. numpy's
  division does not raise on a zero divisor: it yields an infinity, or not-a-number for
  \<open>0 / 0\<close>, so the entries after the division are \<open>fval\<close>s. \<open>plot_data_normalize\<close> is the
  two normalizing statements of \<^verbatim>\<open>plot_data\<close> and returns the values it then draws.
\<close>

datatype 'a ndarray = Scalar 'a | Array "'a ndarray list"

datatype fval = Finite rat | PosInf | NegInf | NaN

fun flatten :: "'a ndarray \<Rightarrow> 'a list" where
  "flatten (Scalar v) = [v]"
| "flatten (Array xs) = concat (map flatten xs)"

fun squeeze :: "'a ndarray \<Rightarrow> 'a ndarray" where
  "squeeze (Scalar v) = Scalar v"
| "squeeze (Array xs) =
     (case xs of [x] \<Rightarrow> squeeze x | _ \<Rightarrow> Array (map squeeze xs))"

definition amin :: "rat ndarray \<Rightarrow> error + rat" where
  "amin a = (if flatten a = [] then Inl ValueError else Inr (Min (set (flatten a))))"

definition amax :: "rat ndarray \<Rightarrow> error + rat" where
  "amax a = (if flatten a = [] then Inl ValueError else Inr (Max (set (flatten a))))"

definition np_divide :: "rat \<Rightarrow> rat \<Rightarrow> fval" where
  "np_divide x d =
     (if d \<noteq> 0 then Finite (x / d)
      else if 0 < x then PosInf
      else if x < 0 then NegInf
      else NaN)"

definition plot_data_normalize :: "rat ndarray \<Rightarrow> error + fval ndarray" where
  "plot_data_normalize maps =
     (case amin maps of
        Inl e \<Rightarrow> Inl e
      | Inr lo \<Rightarrow>
          let maps1 = map_ndarray (\<lambda>v. v - lo) maps
          in (case amax maps1 of
                Inl e \<Rightarrow> Inl e
              | Inr hi \<Rightarrow> Inr (map_ndarray (\<lambda>v. np_divide v hi) maps1)))"

text \<open>
  The weight of a \<^verbatim>\<open>Conv2d\<close> layer has four axes: output feature, input feature, and the
  two of the kernel window. \<^verbatim>\<open>kernel[:, args.feature_num, :, :]\<close> keeps axis 0 whole and
  takes one index on axis 1, with Python's indexing: a negative index counts from the end,
  an index out of range raises.
\<close>

definition py_index :: "'a list \<Rightarrow> int \<Rightarrow> error + 'a" where
  "py_index xs i =
     (if 0 \<le> i \<and> i < int (length xs) then Inr (xs ! nat i)
      else if i < 0 \<and> - int (length xs) \<le> i then Inr (xs ! nat (int (length xs) + i))
      else Inl IndexError)"

type_synonym conv_weight = "rat list list list list"

fun index_axis1 :: "int \<Rightarrow> conv_weight \<Rightarrow> error + rat list list list" where
  "index_axis1 f [] = Inr []"
| "index_axis1 f (filt # rest) =
     (case py_index filt f of
        Inl e \<Rightarrow> Inl e
      | Inr plane \<Rightarrow>
          (case index_axis1 f rest of
             Inl e \<Rightarrow> Inl e
           | Inr planes \<Rightarrow> Inr (plane # planes)))"

definition array3 :: "'a list list list \<Rightarrow> 'a ndarray" where
  "array3 k = Array (map (\<lambda>plane. Array (map (\<lambda>row. Array (map Scalar row)) plane)) k)"

text \<open>
  Both the captured maps and the sliced weight go through the same statements: squeeze,
  \<^verbatim>\<open>dim = int(np.sqrt(len(...)))\<close>, where \<^verbatim>\<open>len\<close> raises on an array squeezed down to
  a single number, and \<^verbatim>\<open>plot_data\<close>. After normalizing, \<^verbatim>\<open>plot_data\<close> walks over the
  first axis: tile number \<open>i\<close> (from 0) goes to \<^verbatim>\<open>plt.subplot(dim, dim, i+1)\<close>, which
  raises unless \<open>1 \<le> i + 1 \<le> dim * dim\<close>, and is drawn by \<^verbatim>\<open>plt.imshow\<close>, which raises
  unless the tile has two axes, or three with 3 or 4 entries on the last. A figure is
  the list of the tiles drawn, each with its place in the grid. The grid size
  \<^verbatim>\<open>dim\<close> is written \<open>grid\<close>.
\<close>

definition np_len :: "'a ndarray \<Rightarrow> error + nat" where
  "np_len a = (case a of Scalar v \<Rightarrow> Inl TypeError | Array xs \<Rightarrow> Inr (length xs))"

text \<open>\<^verbatim>\<open>int(np.sqrt(n))\<close>: the number of \<open>m \<ge> 1\<close> with \<open>m * m \<le> n\<close>.\<close>

definition int_sqrt :: "nat \<Rightarrow> nat" where
  "int_sqrt n = length (filter (\<lambda>m. m * m \<le> n) [1..<Suc n])"

fun np_shape :: "'a ndarray \<Rightarrow> nat list" where
  "np_shape (Scalar v) = []"
| "np_shape (Array xs) = length xs # (case xs of [] \<Rightarrow> [] | x # rest \<Rightarrow> np_shape x)"

definition imshow_ok :: "'a ndarray \<Rightarrow> bool" where
  "imshow_ok m =
     (case np_shape m of
        [h, w] \<Rightarrow> True
      | [h, w, c] \<Rightarrow> c = 3 \<or> c = 4
      | _ \<Rightarrow> False)"

type_synonym figure = "(nat \<times> fval ndarray) list"

fun draw_tiles :: "nat \<Rightarrow> nat \<Rightarrow> fval ndarray list \<Rightarrow> error + figure" where
  "draw_tiles grid i [] = Inr []"
| "draw_tiles grid i (m # ms) =
     (if grid = 0 \<or> grid * grid < i + 1 then Inl ValueError
      else if \<not> imshow_ok m then Inl TypeError
      else (case draw_tiles grid (Suc i) ms of
              Inl e \<Rightarrow> Inl e
            | Inr axes \<Rightarrow> Inr ((i + 1, m) # axes)))"

definition plot_data :: "rat ndarray \<Rightarrow> nat \<Rightarrow> error + figure" where
  "plot_data maps grid =
     (case plot_data_normalize maps of
        Inl e \<Rightarrow> Inl e
      | Inr maps1 \<Rightarrow>
          (case maps1 of
             Scalar v \<Rightarrow> Inl TypeError
           | Array tiles \<Rightarrow> draw_tiles grid 0 tiles))"

definition squeeze_and_plot :: "rat ndarray \<Rightarrow> error + figure" where
  "squeeze_and_plot maps =
     (let maps1 = squeeze maps
      in case np_len maps1 of
           Inl e \<Rightarrow> Inl e
         | Inr n \<Rightarrow> plot_data maps1 (int_sqrt n))"

definition viz_kernel :: "args \<Rightarrow> conv_weight \<Rightarrow> error + figure" where
  "viz_kernel a weight =
     (case index_axis1 (feature_num a) weight of
        Inl e \<Rightarrow> Inl e
      | Inr k \<Rightarrow> squeeze_and_plot (array3 k))"

text \<open>The loop of \<^verbatim>\<open>viz_features\<close> over the captured feature maps (given by the forward
  hooks) and the layers' weights: for every layer the figure of the maps, then the figure
  of the slice of the weight.\<close>

fun viz_loop :: "args \<Rightarrow> (rat ndarray \<times> conv_weight) list \<Rightarrow> error + figure list" where
  "viz_loop a [] = Inr []"
| "viz_loop a ((maps, weight) # rest) =
     (case squeeze_and_plot maps of
        Inl e \<Rightarrow> Inl e
      | Inr shown_maps \<Rightarrow>
          (case viz_kernel a weight of
             Inl e \<Rightarrow> Inl e
           | Inr shown_kernel \<Rightarrow>
               (case viz_loop a rest of
                  Inl e \<Rightarrow> Inl e
                | Inr figures \<Rightarrow> Inr (shown_maps # shown_kernel # figures))))"

definition viz_features :: "args \<Rightarrow> rat ndarray list \<Rightarrow> conv_weight list \<Rightarrow> error + figure list" where
  "viz_features a features kernels = viz_loop a (zip features kernels)"

text \<open>The claim's reading, written from its words: the layer's weights restricted to the
  selected output feature (an index on axis 0), squeezed and plotted the same way.\<close>

definition output_feature_view :: "args \<Rightarrow> conv_weight \<Rightarrow> error + figure" where
  "output_feature_view a weight =
     (case py_index weight (feature_num a) of
        Inl e \<Rightarrow> Inl e
      | Inr filt \<Rightarrow> squeeze_and_plot (array3 filt))"

text \<open>
  Concrete layers. \<open>example_weight\<close> has four output and four input features and 2 by 2
  windows: the window of output feature \<open>o\<close> and input feature \<open>i\<close> has \<open>o\<close> in its first
  row and \<open>i\<close> in its second. \<open>example_maps\<close> are four captured 2 by 2 feature maps (batch
  of one). \<open>first_layer_weight\<close> has four output features and one input feature, as the
  first layer of \<^verbatim>\<open>CNNModel\<close> has one input channel. \<open>gray\<close> writes a drawn tile.
\<close>

definition example_weight :: conv_weight where
  "example_weight =
     [[[[0, 0], [0, 0]], [[0, 0], [1, 1]], [[0, 0], [2, 2]], [[0, 0], [3, 3]]],
      [[[1, 1], [0, 0]], [[1, 1], [1, 1]], [[1, 1], [2, 2]], [[1, 1], [3, 3]]],
      [[[2, 2], [0, 0]], [[2, 2], [1, 1]], [[2, 2], [2, 2]], [[2, 2], [3, 3]]],
      [[[3, 3], [0, 0]], [[3, 3], [1, 1]], [[3, 3], [2, 2]], [[3, 3], [3, 3]]]]"

definition example_maps :: "rat ndarray" where
  "example_maps = Array [array3 [[[0, 1], [1, 0]], [[1, 2], [2, 1]], [[2, 3], [3, 2]], [[3, 4], [4, 3]]]]"

definition first_layer_weight :: conv_weight where
  "first_layer_weight = [[[[0, 1], [2, 3]]], [[[1, 2], [3, 4]]], [[[2, 3], [4, 5]]], [[[3, 4], [5, 6]]]]"

definition gray :: "rat list list \<Rightarrow> fval ndarray" where
  "gray rows = Array (map (\<lambda>row. Array (map (\<lambda>v. Scalar (Finite v)) row)) rows)"


lemma flatten_map_ndarray: "flatten (map_ndarray g a) = map g (flatten a)"
  by (induction a) (simp_all add: map_concat comp_def cong: map_cong)

lemma index_axis1_regular:
  assumes "\<forall>filt \<in> set weight. length filt = n_in"
    and "- int n_in \<le> f" and "f < int n_in"
  shows "index_axis1 f weight =
           Inr (map (\<lambda>filt. filt ! nat (if f < 0 then int n_in + f else f)) weight)"
  using assms
  by (induction weight) (auto simp: py_index_def)

lemma draw_tiles_drawn:
  assumes "draw_tiles grid i ms = Inr fig"
  shows "map snd fig = ms \<and> map fst fig = map Suc [i..<i + length ms]"
  using assms
proof (induction ms arbitrary: i fig)
  case Nil
  then show ?case by simp
next
  case (Cons m ms)
  from Cons.prems obtain axes where
    rest: "draw_tiles grid (Suc i) ms = Inr axes" and fig: "fig = (i + 1, m) # axes"
    by (auto split: if_splits sum.splits)
  have "[i..<i + length (m # ms)] = i # [Suc i..<Suc i + length ms]"
    by (simp add: upt_conv_Cons del: upt_Suc)
  with Cons.IH [OF rest] fig show ?case
    by (simp del: upt_Suc)
qed

lemma plot_data_drawn:
  assumes "plot_data maps grid = Inr fig"
  shows "plot_data_normalize maps = Inr (Array (map snd fig)) \<and>
         map fst fig = [1..<Suc (length fig)]"
proof -
  from assms obtain tiles where
    n: "plot_data_normalize maps = Inr (Array tiles)" and
    d: "draw_tiles grid 0 tiles = Inr fig"
    by (auto simp: plot_data_def split: sum.splits ndarray.splits)
  from draw_tiles_drawn [OF d] have s: "map snd fig = tiles" and
    f: "map fst fig = [Suc 0..<Suc (length tiles)]" by (simp_all add: map_Suc_upt)
  from s have "length tiles = length fig" by (metis length_map)
  with n s f show ?thesis by simp
qed

lemma viz_loop_layers:
  assumes "viz_loop a layers = Inr figs" and "l < length layers"
  shows "squeeze_and_plot (fst (layers ! l)) = Inr (figs ! (2 * l)) \<and>
         viz_kernel a (snd (layers ! l)) = Inr (figs ! (2 * l + 1))"
  using assms
proof (induction layers arbitrary: figs l)
  case Nil
  then show ?case by simp
next
  case (Cons layer layers)
  obtain maps weight where layer: "layer = (maps, weight)" by (cases layer)
  from Cons.prems(1) layer obtain shown_maps shown_kernel rest where
    m: "squeeze_and_plot maps = Inr shown_maps" and
    k: "viz_kernel a weight = Inr shown_kernel" and
    r: "viz_loop a layers = Inr rest" and
    figs: "figs = shown_maps # shown_kernel # rest"
    by (auto split: sum.splits)
  show ?case
  proof (cases l)
    case 0
    with layer m k figs show ?thesis by simp
  next
    case (Suc l')
    with Cons.prems(2) have "l' < length layers" by simp
    from Cons.IH [OF r this] Suc figs show ?thesis by simp
  qed
qed

text \<open>
  What the routine takes. For every captured layer of a run of \<^verbatim>\<open>viz_features\<close> that
  completes, the layer's second figure is the one made from its weight. For every layer
  weight whose filters all have \<open>n_in\<close> input features, and a \<^verbatim>\<open>--feature-num\<close> that is a
  valid Python index into them, the weights taken are, for every output feature of the
  layer, that filter's window at the selected input-feature index (axis 1); when the
  figure is drawn, its tiles are that slice, squeezed and normalized, in grid places
  1, 2, ... in order.
\<close>

lemma viz_kernel_slice:
  "(viz_features a features kernels = Inr figs \<and> l < length features \<and> l < length kernels \<longrightarrow>
      viz_kernel a (kernels ! l) = Inr (figs ! (2 * l + 1))) \<and>
   ((\<forall>filt \<in> set weight. length filt = n_in) \<and>
    - int n_in \<le> feature_num a \<and> feature_num a < int n_in \<longrightarrow>
      index_axis1 (feature_num a) weight =
        Inr (map (\<lambda>filt. filt ! nat (if feature_num a < 0 then int n_in + feature_num a
                                     else feature_num a)) weight) \<and>
      viz_kernel a weight =
        squeeze_and_plot (array3
          (map (\<lambda>filt. filt ! nat (if feature_num a < 0 then int n_in + feature_num a
                                    else feature_num a)) weight)) \<and>
      (\<forall>fig. viz_kernel a weight = Inr fig \<longrightarrow>
         plot_data_normalize (squeeze (array3
           (map (\<lambda>filt. filt ! nat (if feature_num a < 0 then int n_in + feature_num a
                                     else feature_num a)) weight))) =
           Inr (Array (map snd fig)) \<and>
         map fst fig = [1..<Suc (length fig)]))"
proof (intro conjI impI allI)
  assume "viz_features a features kernels = Inr figs \<and> l < length features \<and> l < length kernels"
  then have run: "viz_loop a (zip features kernels) = Inr figs"
    and l: "l < length (zip features kernels)"
    by (simp_all add: viz_features_def)
  from viz_loop_layers [OF run l] l
  show "viz_kernel a (kernels ! l) = Inr (figs ! (2 * l + 1))" by simp
next
  let ?slice = "map (\<lambda>filt. filt ! nat (if feature_num a < 0 then int n_in + feature_num a
                                     else feature_num a)) weight"
  assume h: "(\<forall>filt \<in> set weight. length filt = n_in) \<and>
    - int n_in \<le> feature_num a \<and> feature_num a < int n_in"
  then have s: "index_axis1 (feature_num a) weight = Inr ?slice"
    using index_axis1_regular [of weight n_in "feature_num a"] by blast
  then show "index_axis1 (feature_num a) weight = Inr ?slice" .
  from s show v: "viz_kernel a weight = squeeze_and_plot (array3 ?slice)"
    by (simp add: viz_kernel_def)
  fix fig
  assume "viz_kernel a weight = Inr fig"
  with v have "squeeze_and_plot (array3 ?slice) = Inr fig" by simp
  then obtain n where "plot_data (squeeze (array3 ?slice)) n = Inr fig"
    by (auto simp: squeeze_and_plot_def Let_def split: sum.splits)
  from plot_data_drawn [OF this]
  show "plot_data_normalize (squeeze (array3 ?slice)) = Inr (Array (map snd fig))"
    and "map fst fig = [1..<Suc (length fig)]"
    by simp_all
qed

lemma int_sqrt_4: "int_sqrt (Suc (Suc (Suc (Suc 0)))) = 2"
  by code_simp

lemma int_sqrt_2: "int_sqrt (Suc (Suc 0)) = 1"
  by code_simp

lemmas viz_unfold =
  viz_kernel_def output_feature_view_def example_args_def py_index_def array3_def
  squeeze_and_plot_def np_len_def plot_data_def plot_data_normalize_def amin_def amax_def
  np_divide_def imshow_ok_def gray_def int_sqrt_4 int_sqrt_2 Let_def

lemma example_weight_view:
  "viz_kernel example_args example_weight =
     Inr [(1, gray [[0, 0], [0, 0]]), (2, gray [[1 / 3, 1 / 3], [0, 0]]),
          (3, gray [[2 / 3, 2 / 3], [0, 0]]), (4, gray [[1, 1], [0, 0]])]"
  by (simp add: example_weight_def viz_unfold)

lemma example_weight_output_view:
  "output_feature_view example_args example_weight =
     Inr [(1, gray [[0, 0], [0, 0]]), (2, gray [[0, 0], [1 / 3, 1 / 3]]),
          (3, gray [[0, 0], [2 / 3, 2 / 3]]), (4, gray [[0, 0], [1, 1]])]"
  by (simp add: example_weight_def viz_unfold)

lemma example_maps_view:
  "squeeze_and_plot example_maps =
     Inr [(1, gray [[0, 1 / 4], [1 / 4, 0]]), (2, gray [[1 / 4, 1 / 2], [1 / 2, 1 / 4]]),
          (3, gray [[1 / 2, 3 / 4], [3 / 4, 1 / 2]]), (4, gray [[3 / 4, 1], [1, 3 / 4]])]"
  by (simp add: example_maps_def viz_unfold)

text \<open>
  On a layer with one input feature, as the first layer of the script's network, the
  slice on axis 1 is drawn (one tile for every output feature); a restriction to one
  output feature leaves a single window there, whose rows \<^verbatim>\<open>plt.imshow\<close> does not take.
\<close>

lemma first_layer_views:
  "viz_kernel example_args first_layer_weight =
     Inr [(1, gray [[0, 1 / 6], [1 / 3, 1 / 2]]), (2, gray [[1 / 6, 1 / 3], [1 / 2, 2 / 3]]),
          (3, gray [[1 / 3, 1 / 2], [2 / 3, 5 / 6]]), (4, gray [[1 / 2, 2 / 3], [5 / 6, 1]])]"
  "output_feature_view example_args first_layer_weight = Inl TypeError"
  by (simp_all add: first_layer_weight_def viz_unfold)

text \<open>
  Claim C7. The kernel weights that are normalized and gridded should be the layer's
  weights restricted to the one output feature that \<^verbatim>\<open>--feature-num\<close> selects; the
  routine's own figure title says so too (\<^verbatim>\<open>"Kernel weights layer %d filter %d"\<close> with
  \<^verbatim>\<open>args.feature_num\<close>, a filter being an output feature in the source's comment on
  \<^verbatim>\<open>Conv2d\<close>). The routine does not do this. On a layer with four output and four input
  features and \<^verbatim>\<open>--feature-num 0\<close> it draws the feature maps and then four kernel tiles,
  one taken from each output feature (the first rows 0, 1, 2, 3, normalized), where the
  restriction to output feature 0 is the four windows of that one filter.
\<close>

theorem viz_kernel_not_output_feature:
  "viz_features example_args [example_maps] [example_weight] =
     Inr [[(1, gray [[0, 1 / 4], [1 / 4, 0]]), (2, gray [[1 / 4, 1 / 2], [1 / 2, 1 / 4]]),
           (3, gray [[1 / 2, 3 / 4], [3 / 4, 1 / 2]]), (4, gray [[3 / 4, 1], [1, 3 / 4]])],
          [(1, gray [[0, 0], [0, 0]]), (2, gray [[1 / 3, 1 / 3], [0, 0]]),
           (3, gray [[2 / 3, 2 / 3], [0, 0]]), (4, gray [[1, 1], [0, 0]])]] \<and>
   output_feature_view example_args example_weight =
     Inr [(1, gray [[0, 0], [0, 0]]), (2, gray [[0, 0], [1 / 3, 1 / 3]]),
          (3, gray [[0, 0], [2 / 3, 2 / 3]]), (4, gray [[0, 0], [1, 1]])] \<and>
   viz_kernel example_args example_weight \<noteq> output_feature_view example_args example_weight"
  by (simp add: viz_features_def example_maps_view example_weight_view
      example_weight_output_view gray_def)


lemma normalize_parts:
  assumes ne: "flatten maps \<noteq> []"
  shows "amin maps = Inr (Min (set (flatten maps)))"
    and "amax (map_ndarray (\<lambda>v. v - Min (set (flatten maps))) maps) =
           Inr (Max ((\<lambda>v. v - Min (set (flatten maps))) ` set (flatten maps)))"
    and "plot_data_normalize maps =
           Inr (map_ndarray
                 (\<lambda>v. np_divide v (Max ((\<lambda>v. v - Min (set (flatten maps))) ` set (flatten maps))))
                 (map_ndarray (\<lambda>v. v - Min (set (flatten maps))) maps))"
  using ne
  by (simp_all add: amin_def amax_def plot_data_normalize_def flatten_map_ndarray)


lemma shifted_bounds:
  fixes xs :: "rat list"
  assumes "x \<in> set xs"
  shows "0 \<le> x - Min (set xs)"
    and "x - Min (set xs) \<le> Max ((\<lambda>v. v - Min (set xs)) ` set xs)"
proof -
  from assms show "0 \<le> x - Min (set xs)" by simp
  have "finite ((\<lambda>v. v - Min (set xs)) ` set xs)" by simp
  moreover from assms have "x - Min (set xs) \<in> (\<lambda>v. v - Min (set xs)) ` set xs"
    by (rule imageI)
  ultimately show "x - Min (set xs) \<le> Max ((\<lambda>v. v - Min (set xs)) ` set xs)"
    by (rule Max_ge)
qed


lemma trans_sym: "a = c \<Longrightarrow> b = c \<Longrightarrow> a = b"
  by (erule ssubst, erule ssubst, rule refl)

lemma divisor_zero_iff:
  fixes xs :: "rat list"
  assumes "xs \<noteq> []"
  shows "Max ((\<lambda>v. v - Min (set xs)) ` set xs) = 0 \<longleftrightarrow> (\<forall>u \<in> set xs. \<forall>v \<in> set xs. u = v)"
proof
  assume z: "Max ((\<lambda>v. v - Min (set xs)) ` set xs) = 0"
  have m: "x = Min (set xs)" if "x \<in> set xs" for x
  proof -
    from shifted_bounds [OF that] z have "x - Min (set xs) = 0" by (simp only: order.antisym)
    then show ?thesis by (simp only: right_minus_eq)
  qed
  show "\<forall>u \<in> set xs. \<forall>v \<in> set xs. u = v"
  proof (intro ballI)
    fix u v assume u: "u \<in> set xs" and v: "v \<in> set xs"
    from m [OF u] m [OF v] show "u = v" by (rule trans_sym)
  qed
next
  assume eq: "\<forall>u \<in> set xs. \<forall>v \<in> set xs. u = v"
  from assms have lo: "Min (set xs) \<in> set xs" by (intro Min_in) simp_all
  have zero: "x - Min (set xs) = 0" if "x \<in> set xs" for x
  proof -
    from eq that lo have "x = Min (set xs)" by blast
    then show ?thesis by (simp only: right_minus_eq)
  qed
  have fin: "finite ((\<lambda>v. v - Min (set xs)) ` set xs)"
    by (rule finite_imageI) (rule finite_set)
  have ne: "(\<lambda>v. v - Min (set xs)) ` set xs \<noteq> {}"
  proof
    assume "(\<lambda>v. v - Min (set xs)) ` set xs = {}"
    then have "set xs = {}" by (simp only: image_is_empty)
    with lo show False by (simp only: empty_iff)
  qed
  from Max_in [OF fin ne] obtain w where
    w: "w \<in> set xs" and mw: "Max ((\<lambda>v. v - Min (set xs)) ` set xs) = w - Min (set xs)"
    by (rule imageE)
  from mw zero [OF w] show "Max ((\<lambda>v. v - Min (set xs)) ` set xs) = 0"
    by (rule trans)
qed


lemma ratio_in_unit:
  fixes d hi :: rat
  assumes "0 \<le> d" and "d \<le> hi" and "0 < hi"
  shows "0 \<le> d / hi \<and> d / hi \<le> 1"
  using assms by (simp add: divide_le_eq_1)

text \<open>
  Claim C10. On any array with at least one entry, \<^verbatim>\<open>plot_data\<close> subtracts the minimum
  and divides by the maximum of the shifted values. If two entries differ, that divisor is
  not zero and every normalized entry is a number in [0, 1], with 0 and 1 both attained.
  If all entries are equal, the divisor is zero and every normalized entry is \<open>0 / 0\<close>,
  not a number.
\<close>

theorem normalize_defined_iff_two_distinct:
  assumes ne: "flatten maps \<noteq> []"
  shows "\<exists>lo hi out.
           amin maps = Inr lo \<and>
           amax (map_ndarray (\<lambda>v. v - lo) maps) = Inr hi \<and>
           plot_data_normalize maps = Inr out \<and>
           (if \<exists>u \<in> set (flatten maps). \<exists>v \<in> set (flatten maps). u \<noteq> v
            then hi \<noteq> 0 \<and>
                 (\<forall>y \<in> set (flatten out). \<exists>q. y = Finite q \<and> 0 \<le> q \<and> q \<le> 1) \<and>
                 Finite 0 \<in> set (flatten out) \<and> Finite 1 \<in> set (flatten out)
            else hi = 0 \<and> (\<forall>y \<in> set (flatten out). y = NaN))"
proof -
  define xs where "xs = flatten maps"
  define lo where "lo = Min (set xs)"
  define hi where "hi = Max ((\<lambda>v. v - lo) ` set xs)"
  define out where "out = map_ndarray (\<lambda>v. np_divide v hi) (map_ndarray (\<lambda>v. v - lo) maps)"
  have xs_ne: "xs \<noteq> []" unfolding xs_def by (rule ne)
  have parts:
    "amin maps = Inr lo"
    "amax (map_ndarray (\<lambda>v. v - lo) maps) = Inr hi"
    "plot_data_normalize maps = Inr out"
    using normalize_parts [OF ne] by (simp_all only: xs_def lo_def hi_def out_def)
  have flat: "flatten out = map (\<lambda>x. np_divide (x - lo) hi) xs"
    by (simp only: out_def flatten_map_ndarray xs_def map_map comp_def)
  have lo_in: "lo \<in> set xs"
    unfolding lo_def using xs_ne by (intro Min_in) simp_all
  have low: "0 \<le> x - lo" and high: "x - lo \<le> hi" if "x \<in> set xs" for x
    using shifted_bounds [OF that] by (simp_all only: lo_def hi_def)
  have zero_iff: "hi = 0 \<longleftrightarrow> (\<forall>u \<in> set xs. \<forall>v \<in> set xs. u = v)"
    using divisor_zero_iff [OF xs_ne] by (simp only: lo_def hi_def)
  have member: "\<exists>x. x \<in> set xs \<and> y = np_divide (x - lo) hi"
    if "y \<in> set (flatten out)" for y
  proof -
    from that have "y \<in> (\<lambda>x. np_divide (x - lo) hi) ` set xs"
      by (simp only: flat set_map)
    then show ?thesis by (rule imageE) (rule exI, rule conjI, assumption, assumption)
  qed
  have inside: "np_divide (x - lo) hi \<in> set (flatten out)" if "x \<in> set xs" for x
    unfolding flat set_map using that by (rule imageI)
  have final: "if \<exists>u \<in> set xs. \<exists>v \<in> set xs. u \<noteq> v
            then hi \<noteq> 0 \<and>
                 (\<forall>y \<in> set (flatten out). \<exists>q. y = Finite q \<and> 0 \<le> q \<and> q \<le> 1) \<and>
                 Finite 0 \<in> set (flatten out) \<and> Finite 1 \<in> set (flatten out)
            else hi = 0 \<and> (\<forall>y \<in> set (flatten out). y = NaN)"
  proof (cases "\<exists>u \<in> set xs. \<exists>v \<in> set xs. u \<noteq> v")
    case True
    with zero_iff have nz: "hi \<noteq> 0" by blast
    from low [OF lo_in] high [OF lo_in] have "0 \<le> hi" by (rule order_trans)
    with nz have pos: "0 < hi" by (simp only: order.strict_iff_order) simp
    have range: "\<exists>q. y = Finite q \<and> 0 \<le> q \<and> q \<le> 1" if "y \<in> set (flatten out)" for y
    proof -
      from member [OF that] obtain x where
        x: "x \<in> set xs" and y: "y = np_divide (x - lo) hi" by blast
      from ratio_in_unit [OF low [OF x] high [OF x] pos]
      have "0 \<le> (x - lo) / hi \<and> (x - lo) / hi \<le> 1" .
      moreover from y nz have "y = Finite ((x - lo) / hi)" by (simp add: np_divide_def)
      ultimately show ?thesis by blast
    qed
    have zero: "Finite 0 \<in> set (flatten out)"
    proof -
      from nz have "np_divide (lo - lo) hi = Finite 0" by (simp add: np_divide_def)
      with inside [OF lo_in] show ?thesis by (simp only:)
    qed
    have one: "Finite 1 \<in> set (flatten out)"
    proof -
      have "hi \<in> (\<lambda>v. v - lo) ` set xs"
        unfolding hi_def using xs_ne by (intro Max_in) simp_all
      then obtain w where w: "w \<in> set xs" and hw: "hi = w - lo" by (rule imageE)
      from nz hw have "np_divide (w - lo) hi = Finite 1" by (simp add: np_divide_def)
      with inside [OF w] show ?thesis by (simp only:)
    qed
    from True nz range zero one show ?thesis by (simp only: if_True) blast
  next
    case False
    then have eq: "\<forall>u \<in> set xs. \<forall>v \<in> set xs. u = v" by blast
    with zero_iff have z: "hi = 0" by blast
    have nan: "y = NaN" if "y \<in> set (flatten out)" for y
    proof -
      from member [OF that] obtain x where
        x: "x \<in> set xs" and y: "y = np_divide (x - lo) hi" by blast
      from eq x lo_in have "x = lo" by blast
      with y z show ?thesis by (simp add: np_divide_def)
    qed
    from False z nan show ?thesis by (simp only: if_False) blast
  qed
  from parts final show ?thesis
    unfolding xs_def by (intro exI conjI)
qed

theorem normalize_defined_iff_two_distinct_witness:
  "plot_data_normalize (Array [Scalar 2, Scalar 2]) = Inr (Array [Scalar NaN, Scalar NaN]) \<and>
   plot_data_normalize (Array [Array [Scalar 2, Scalar 4], Array [Scalar 3, Scalar 2]]) =
     Inr (Array [Array [Scalar (Finite 0), Scalar (Finite 1)],
                 Array [Scalar (Finite (1 / 2)), Scalar (Finite 0)]])"
  using normalize_defined_iff_two_distinct [of "Array [Scalar 2, Scalar 2]"]
    normalize_defined_iff_two_distinct
      [of "Array [Array [Scalar 2, Scalar 4], Array [Scalar 3, Scalar 2]]"]
  by (simp add: plot_data_normalize_def amin_def amax_def np_divide_def)

end
